theory Spec2Isabelle
  imports Main "HOL-Library.Sublist"
begin

section \<open>Declaration text synthesis (full\_function\_declaration\_expander.cpp)\<close>

subsection \<open>What the AST front end exposes about a declaration\<close>

text \<open>
  The clang AST is an external collaborator. A node is modelled by the values the code
  reads from it: every string below is the text the corresponding clang query returns
  (a printed type, a qualified name, the source text of a range).
\<close>

datatype RefQualifierKind = RQ_None | RQ_LValue | RQ_RValue

datatype AccessSpecifier = AS_public | AS_protected | AS_private | AS_none

datatype SourceLocation = InvalidLoc | FileLoc nat

record Attr =
  isStandardAttributeSyntax :: bool
  attr_range_text :: string \<comment> \<open>source text of \<open>attr->getRange()\<close>\<close>

record ParmVarDecl =
  parm_type_text :: string \<comment> \<open>\<open>param->getType().getAsString(printing_policy)\<close>\<close>
  parm_name :: string \<comment> \<open>\<open>param->getQualifiedNameAsString()\<close>, empty when unnamed\<close>

text \<open>
  The return type as the code distinguishes it: a template specialization is printed
  from its fully qualified template name and its printed arguments, anything else by
  the type printer.
\<close>

datatype ReturnType =
  PlainType string
  | TemplateSpecializationType string "string list"

text \<open>The part of a node that only a \<open>CXXMethodDecl\<close> has.\<close>

record CXXMethodDecl =
  isConst :: bool
  getRefQualifier :: RefQualifierKind
  isPure :: bool
  getAccess :: AccessSpecifier
  isImplicit :: bool
  getEndLoc :: SourceLocation
  parent_qualified_name :: string \<comment> \<open>\<open>method->getParent()->getQualifiedNameAsString()\<close>\<close>

record FunctionDecl =
  getAttrs :: "Attr list"
  return_type_as_written :: string \<comment> \<open>source text of \<open>getReturnTypeSourceRange()\<close>\<close>
  getReturnType :: ReturnType
  getQualifiedNameAsString :: string
  parameters :: "ParmVarDecl list"
  exception_spec_text :: "string option"
    \<comment> \<open>\<open>None\<close>: \<open>getExceptionSpecSourceRange()\<close> is invalid; otherwise its source text\<close>
  as_method :: "CXXMethodDecl option"
    \<comment> \<open>the result of \<open>dynamic_cast<const CXXMethodDecl*>\<close>: \<open>None\<close> for a free function\<close>

record FullFunctionDeclarationExpanderOptions =
  ignore_attribute_specifiers :: bool

subsection \<open>The string helpers\<close>

text \<open>
  \<open>join(begin, end, delim)\<close>: the empty string on an empty range, otherwise
  \<open>std::accumulate\<close> from the first element, appending \<open>delim + elem\<close> for each further
  element.
\<close>

definition join :: "string list \<Rightarrow> string \<Rightarrow> string" where
  "join string_vec delim =
     (case string_vec of
        [] \<Rightarrow> []
      | init # rest \<Rightarrow> foldl (\<lambda>result elem. result @ delim @ elem) init rest)"

subsection \<open>The fragments\<close>

text \<open>
  \<open>get_standard_attributes\<close>: the loop pushes \<open>"[[" + text + "]]"\<close> for every attribute
  in standard syntax, in order; the result is their join with a space.
\<close>

fun standard_attributes_as_strings :: "Attr list \<Rightarrow> string list" where
  "standard_attributes_as_strings [] = []"
| "standard_attributes_as_strings (attr # attrs) =
     (if isStandardAttributeSyntax attr
      then (''[['' @ attr_range_text attr @ '']]'') # standard_attributes_as_strings attrs
      else standard_attributes_as_strings attrs)"

definition get_standard_attributes :: "FunctionDecl \<Rightarrow> string" where
  "get_standard_attributes node = join (standard_attributes_as_strings (getAttrs node)) '' ''"

definition stringify_template_specialization :: "string \<Rightarrow> string list \<Rightarrow> string" where
  "stringify_template_specialization template_name template_args_as_string =
     template_name @ ''<'' @ join template_args_as_string '', '' @ ''>''"

definition get_return_type :: "FunctionDecl \<Rightarrow> string" where
  "get_return_type node =
     (if return_type_as_written node = [] then []
      else (case getReturnType node of
              TemplateSpecializationType template_name args \<Rightarrow>
                stringify_template_specialization template_name args
            | PlainType printed \<Rightarrow> printed))"

definition param_to_string :: "ParmVarDecl \<Rightarrow> string" where
  "param_to_string param =
     (if parm_name param \<noteq> [] then parm_type_text param @ '' '' @ parm_name param
      else parm_type_text param)"

definition get_parameters :: "FunctionDecl \<Rightarrow> string" where
  "get_parameters node = ''('' @ join (map param_to_string (parameters node)) '', '' @ '')''"

definition get_ref_qualifier :: "CXXMethodDecl \<Rightarrow> string" where
  "get_ref_qualifier node =
     (if getRefQualifier node = RQ_LValue then ''&''
      else if getRefQualifier node = RQ_RValue then ''&&''
      else [])"

text \<open>
  \<open>get_noexcept_qualifier\<close> is called with the method, which is the function node
  itself seen as a \<open>CXXMethodDecl\<close>; the exception specification is a member of every
  function declaration.
\<close>

definition get_noexcept_qualifier :: "FunctionDecl \<Rightarrow> string" where
  "get_noexcept_qualifier node =
     (case exception_spec_text node of None \<Rightarrow> [] | Some written \<Rightarrow> written)"

subsection \<open>The expander\<close>

text \<open>
  \<open>result_parted\<close> grows by \<open>emplace_back\<close>; \<open>std::ranges::remove_if\<close> then drops the
  empty strings, keeping the order of the others, and the rest is joined with a space.
\<close>

definition result_parted :: "FunctionDecl \<Rightarrow> FullFunctionDeclarationExpanderOptions \<Rightarrow> string list" where
  "result_parted function options =
     (if \<not> ignore_attribute_specifiers options then [get_standard_attributes function] else [])
     @ [get_return_type function]
     @ [getQualifiedNameAsString function @ get_parameters function]
     @ (case as_method function of
          None \<Rightarrow> []
        | Some method \<Rightarrow>
            [if isConst method then ''const'' else [],
             get_ref_qualifier method,
             get_noexcept_qualifier function])"

definition fully_expand_function_declaration ::
  "FunctionDecl \<Rightarrow> FullFunctionDeclarationExpanderOptions \<Rightarrow> string" where
  "fully_expand_function_declaration function options =
     join (filter (\<lambda>s. s \<noteq> []) (result_parted function options)) '' ''"

section \<open>Override declarations (pure\_virtual\_functions\_extractor.cpp)\<close>

text \<open>
  A class node, as far as the code reads it. \<open>methods\<close> is \<open>record->methods()\<close> in
  declaration order; every method is a function declaration whose \<open>as_method\<close> part is
  present, so the \<open>None\<close> branches of the accessors below are never taken on the
  methods of a class. The source range is the one of \<open>record->getSourceRange()\<close>, as
  byte offsets.
\<close>

record CXXRecordDecl =
  methods :: "FunctionDecl list"
  isStruct :: bool
  range_begin_offset :: nat
  range_end_offset :: nat

text \<open>
  \<open>std::regex_replace(declaration, std::regex{prefix}, "")\<close> belongs to the C++ standard
  library; it is a parameter \<open>regex_replace declaration prefix\<close> of the model.
  \<open>append_override_declaration\<close> pushes one string on \<open>override_declarations\<close>.
\<close>

definition interface_nesting_prefix :: "FunctionDecl \<Rightarrow> string" where
  "interface_nesting_prefix method =
     (case as_method method of
        None \<Rightarrow> ''::''
      | Some m \<Rightarrow> parent_qualified_name m @ ''::'')"

definition append_override_declaration ::
  "(string \<Rightarrow> string \<Rightarrow> string) \<Rightarrow> FunctionDecl \<Rightarrow> string list \<Rightarrow> string list" where
  "append_override_declaration regex_replace method override_declarations =
     (let declaration = fully_expand_function_declaration method
                          \<lparr>ignore_attribute_specifiers = False\<rparr>;
          declaration = regex_replace declaration (interface_nesting_prefix method);
          declaration = declaration @ '' override;''
      in override_declarations @ [declaration])"

definition method_isPure :: "FunctionDecl \<Rightarrow> bool" where
  "method_isPure method = (case as_method method of None \<Rightarrow> False | Some m \<Rightarrow> isPure m)"

text \<open>\<open>collect_override_declarations\<close>: the loop over \<open>record->methods()\<close>.\<close>

fun collect_methods ::
  "(string \<Rightarrow> string \<Rightarrow> string) \<Rightarrow> FunctionDecl list \<Rightarrow> string list \<Rightarrow> string list" where
  "collect_methods regex_replace [] override_declarations = override_declarations"
| "collect_methods regex_replace (method # rest) override_declarations =
     collect_methods regex_replace rest
       (if method_isPure method
        then append_override_declaration regex_replace method override_declarations
        else override_declarations)"

definition collect_override_declarations ::
  "(string \<Rightarrow> string \<Rightarrow> string) \<Rightarrow> CXXRecordDecl \<Rightarrow> string list \<Rightarrow> string list" where
  "collect_override_declarations regex_replace record_decl override_declarations =
     collect_methods regex_replace (methods record_decl) override_declarations"

text \<open>
  \<open>node->forallBases(callback)\<close> is the front end's walk over the base classes: it calls
  the callback on one base after the other and stops as soon as the callback returns
  false. The bases it reaches, in its order, are the list \<open>bases\<close>; the callback threads
  the vector it appends to.
\<close>

fun forallBases ::
  "CXXRecordDecl list \<Rightarrow> (CXXRecordDecl \<Rightarrow> 's \<Rightarrow> bool \<times> 's) \<Rightarrow> 's \<Rightarrow> 's" where
  "forallBases [] callback st = st"
| "forallBases (base # bases) callback st =
     (case callback base st of
        (True, st') \<Rightarrow> forallBases bases callback st'
      | (False, st') \<Rightarrow> st')"

definition pure_virtual_functions_to_override_declarations ::
  "(string \<Rightarrow> string \<Rightarrow> string) \<Rightarrow> CXXRecordDecl list \<Rightarrow> CXXRecordDecl \<Rightarrow> string list" where
  "pure_virtual_functions_to_override_declarations regex_replace bases node =
     (let override_declarations = [];
          override_declarations =
            forallBases bases
              (\<lambda>base decls. (True, collect_override_declarations regex_replace base decls))
              override_declarations
      in collect_override_declarations regex_replace node override_declarations)"

section \<open>The suitable place in a class (finder.cpp)\<close>

subsection \<open>Tokens and the source manager\<close>

datatype TokenKind = semi | l_brace | r_brace | eof | other_token

record Token =
  getKind :: TokenKind
  getLocation :: SourceLocation

text \<open>
  The lexer and the source manager are the front end's: \<open>findNextToken\<close> stands for
  \<open>Lexer::findNextToken(location, source_manager, record->getLangOpts())\<close> and
  \<open>getFileOffset\<close> for \<open>source_manager.getFileOffset(location)\<close>.
\<close>

record SourceManager =
  findNextToken :: "SourceLocation \<Rightarrow> Token option"
  getFileOffset :: "SourceLocation \<Rightarrow> nat"

datatype BaseError =
  TokenEmpty \<comment> \<open>"Can't unpack token; token empty!"\<close>
  | TokenInvalidLocation \<comment> \<open>"Can't unpack token; token holds invalid location!"\<close>
  | IteratorOutOfRange
    \<comment> \<open>not an exception: the iterator range handed to \<open>std::find\<close> is not a range of the
        buffer, which is undefined behaviour in C++; nothing is claimed about it\<close>

record SuitablePublicMethodPlaceInCppFile =
  offset :: nat
  is_public_section_needed :: bool

subsection \<open>The last public method of the first chain\<close>

definition is_public_explicit_method :: "FunctionDecl \<Rightarrow> bool" where
  "is_public_explicit_method method =
     (case as_method method of
        None \<Rightarrow> False
      | Some m \<Rightarrow> getAccess m = AS_public \<and> \<not> isImplicit m)"

definition method_getEndLoc :: "FunctionDecl \<Rightarrow> SourceLocation" where
  "method_getEndLoc method =
     (case as_method method of None \<Rightarrow> InvalidLoc | Some m \<Rightarrow> getEndLoc m)"

text \<open>\<open>std::ranges::find_if\<close>: the range from the first element that satisfies \<open>pred\<close>.\<close>

fun find_if :: "('a \<Rightarrow> bool) \<Rightarrow> 'a list \<Rightarrow> 'a list" where
  "find_if pred [] = []"
| "find_if pred (x # xs) = (if pred x then x # xs else find_if pred xs)"

text \<open>
  The \<open>for\<close> loop from \<open>first_public_method_it\<close>: \<open>last_method\<close> is the element the
  iterator \<open>last_public_method_in_first_public_method_chain_it\<close> points to.
\<close>

fun last_in_chain :: "FunctionDecl \<Rightarrow> FunctionDecl list \<Rightarrow> FunctionDecl" where
  "last_in_chain last_method [] = last_method"
| "last_in_chain last_method (it # rest) =
     (if \<not> is_public_explicit_method it then last_method else last_in_chain it rest)"

definition find_location_after_last_public_method_in_the_first_chain ::
  "CXXRecordDecl \<Rightarrow> SourceLocation option" where
  "find_location_after_last_public_method_in_the_first_chain record_decl =
     (case find_if is_public_explicit_method (methods record_decl) of
        [] \<Rightarrow> None
      | first_public_method # rest \<Rightarrow>
          Some (method_getEndLoc (last_in_chain first_public_method (first_public_method # rest))))"

subsection \<open>The offset after a location\<close>

definition unpack_source_location_from_token :: "Token option \<Rightarrow> BaseError + SourceLocation" where
  "unpack_source_location_from_token token =
     (case token of
        None \<Rightarrow> Inl TokenEmpty
      | Some tok \<Rightarrow>
          (if getLocation tok = InvalidLoc then Inl TokenInvalidLocation
           else Inr (getLocation tok)))"

text \<open>The loop \<open>for (unsigned i{0}; i < 1000; ++i)\<close>, from the value \<open>i\<close> of its counter.\<close>

function skip_semis :: "SourceManager \<Rightarrow> nat \<Rightarrow> SourceLocation \<Rightarrow> SourceLocation" where
  "skip_semis source_manager i current_location =
     (if i < 1000 then
        (case findNextToken source_manager current_location of
           None \<Rightarrow> current_location
         | Some tok \<Rightarrow>
             (if getKind tok \<noteq> semi then getLocation tok
              else skip_semis source_manager (Suc i) (getLocation tok)))
      else current_location)"
  by pat_completeness auto
termination
  by (relation "measure (\<lambda>(source_manager, i, current_location). 1000 - i)") auto

text \<open>
  \<open>std::find(begin_it, end_it, '\n')\<close> on the buffer, by offsets: the offset of the
  first newline in the range, or the end of the range.
\<close>

function std_find_newline :: "string \<Rightarrow> nat \<Rightarrow> nat \<Rightarrow> nat" where
  "std_find_newline cpp_file_content first_it last_it =
     (if first_it < last_it then
        (if cpp_file_content ! first_it = CHR 0x0A then first_it
         else std_find_newline cpp_file_content (Suc first_it) last_it)
      else last_it)"
  by pat_completeness auto
termination
  by (relation "measure (\<lambda>(cpp_file_content, first_it, last_it). last_it - first_it)") auto

text \<open>
  \<open>get_insert_offset_after_location\<close>. The two iterators are a range of the buffer only
  when \<open>begin_offset \<le> end_offset \<le> size\<close>; the code does not check it, and the model
  gives \<open>IteratorOutOfRange\<close> otherwise. On such a range the loop test \<open>first != last\<close>
  of \<open>std::find\<close> is \<open>first < last\<close>. The result is at most \<open>end_offset\<close>, an
  \<open>unsigned\<close>, so the conversion of the return value does not wrap.
\<close>

definition get_insert_offset_after_location ::
  "string \<Rightarrow> SourceManager \<Rightarrow> SourceLocation \<Rightarrow> BaseError + nat" where
  "get_insert_offset_after_location cpp_file_content source_manager location =
     (let first_token_after_begin_location = findNextToken source_manager location
      in case unpack_source_location_from_token first_token_after_begin_location of
           Inl e \<Rightarrow> Inl e
         | Inr begin_location \<Rightarrow>
             (let current_location =
                    (if map_option getKind first_token_after_begin_location = Some semi
                     then skip_semis source_manager 0 begin_location
                     else begin_location);
                  end_location = current_location;
                  begin_offset = getFileOffset source_manager begin_location;
                  end_offset = getFileOffset source_manager end_location
              in if end_offset < begin_offset \<or> length cpp_file_content < end_offset
                 then Inl IteratorOutOfRange
                 else (let newline_place = std_find_newline cpp_file_content begin_offset end_offset
                       in if newline_place \<noteq> end_offset then Inr (newline_place + 1)
                          else Inr end_offset)))"

subsection \<open>The finder\<close>

text \<open>
  \<open>SuitablePlaceInClassFinder::find\<close> (\<open>finder_find\<close> here, \<open>find\<close> being a function on
  lists). \<open>result\<close> starts as the default
  \<open>SourceLocation\<close>, which is invalid, and \<open>is_public_section_needed\<close> as \<open>false\<close>;
  only \<open>result\<close> is ever assigned.
\<close>

definition finder_find ::
  "string \<Rightarrow> CXXRecordDecl \<Rightarrow> SourceManager \<Rightarrow> BaseError + SuitablePublicMethodPlaceInCppFile" where
  "finder_find cpp_file_content record_decl source_manager =
     (let result = InvalidLoc;
          is_public_section_needed = False;
          result = (case find_location_after_last_public_method_in_the_first_chain record_decl of
                      Some maybe_after_public_method \<Rightarrow> maybe_after_public_method
                    | None \<Rightarrow> result)
      in case get_insert_offset_after_location cpp_file_content source_manager result of
           Inl e \<Rightarrow> Inl e
         | Inr off \<Rightarrow> Inr \<lparr>offset = off, is_public_section_needed = is_public_section_needed\<rparr>)"

text \<open>
  \<open>find_suitable_place_in_class_for_public_method\<close> returns the finder's result in its
  first statement. The statements after that \<open>return\<close> (the offset past the last public
  method, the search for a line with \<open>public:\<close>, the line of the opening bracket with
  \<open>is_public_section_needed = not node->isStruct()\<close>) are never executed.
\<close>

definition find_suitable_place_in_class_for_public_method ::
  "string \<Rightarrow> CXXRecordDecl \<Rightarrow> SourceManager \<Rightarrow> BaseError + SuitablePublicMethodPlaceInCppFile" where
  "find_suitable_place_in_class_for_public_method cpp_file_content node source_manager =
     finder_find cpp_file_content node source_manager"

section \<open>Notions the properties are stated with\<close>

subsection \<open>Joining and erasing, as the specification words them\<close>

text \<open>
  The join of the specification: the fragments in order, one delimiter between two
  neighbours.
\<close>

fun spec_join :: "string \<Rightarrow> string list \<Rightarrow> string" where
  "spec_join delim [] = []"
| "spec_join delim [x] = x"
| "spec_join delim (x # y # ys) = x @ delim @ spec_join delim (y # ys)"

text \<open>
  Literal substring replacement by the empty string, in one pass from the left: at each
  position an occurrence of the pattern is skipped, any other character is kept. This
  is what \<open>std::regex_replace\<close> with an empty format does for a pattern that holds no
  character special to regular expressions.
\<close>

function erase_all :: "string \<Rightarrow> string \<Rightarrow> string" where
  "erase_all pattern subject =
     (if pattern = [] then subject
      else (case subject of
              [] \<Rightarrow> []
            | c # cs \<Rightarrow>
                (if prefix pattern subject
                 then erase_all pattern (drop (length pattern) subject)
                 else c # erase_all pattern cs)))"
  by pat_completeness auto
termination
  by (relation "measure (\<lambda>(pattern, subject). length subject)") auto

definition literal_replace :: "string \<Rightarrow> string \<Rightarrow> string" where
  "literal_replace declaration pattern = erase_all pattern declaration"

text \<open>
  A pattern made of ordinary characters and grouping parentheses: in the ECMAScript
  grammar, the default of \<open>std::regex\<close>, a parenthesis is not matched against the
  subject, it opens or closes a group, and a group matches what its content matches. Such
  a pattern therefore matches exactly the string of its ordinary characters, and
  \<open>std::regex_replace\<close> with an empty format erases the occurrences of that string.
  Without parentheses this is \<open>literal_replace\<close>.
\<close>

definition regex_replace_groups :: "string \<Rightarrow> string \<Rightarrow> string" where
  "regex_replace_groups declaration pattern =
     erase_all (filter (\<lambda>c. c \<noteq> CHR ''('' \<and> c \<noteq> CHR '')'') pattern) declaration"

text \<open>The entry one pure virtual method contributes, and the entries of one record.\<close>

definition override_declaration :: "(string \<Rightarrow> string \<Rightarrow> string) \<Rightarrow> FunctionDecl \<Rightarrow> string" where
  "override_declaration regex_replace method =
     regex_replace
       (fully_expand_function_declaration method \<lparr>ignore_attribute_specifiers = False\<rparr>)
       (interface_nesting_prefix method)
     @ '' override;''"

definition pure_virtual_declarations ::
  "(string \<Rightarrow> string \<Rightarrow> string) \<Rightarrow> CXXRecordDecl \<Rightarrow> string list" where
  "pure_virtual_declarations regex_replace record_decl =
     map (override_declaration regex_replace) (filter method_isPure (methods record_decl))"

subsection \<open>Locations reached by the lexer\<close>

text \<open>The location after \<open>k\<close> calls of the lexer, each from the token found before.\<close>

fun advance :: "SourceManager \<Rightarrow> nat \<Rightarrow> SourceLocation \<Rightarrow> SourceLocation option" where
  "advance source_manager 0 location = Some location"
| "advance source_manager (Suc k) location =
     (case findNextToken source_manager location of
        None \<Rightarrow> None
      | Some tok \<Rightarrow> advance source_manager k (getLocation tok))"

text \<open>
  The anchor: the location the scan ends at when it starts from the first token after
  the chain end.
\<close>

definition anchor_after :: "SourceManager \<Rightarrow> Token \<Rightarrow> SourceLocation" where
  "anchor_after source_manager tok =
     (if getKind tok = semi then skip_semis source_manager 0 (getLocation tok)
      else getLocation tok)"


subsection \<open>A class whose tokens the lexer does not leave\<close>

text \<open>
  What a front end guarantees for a class it has parsed, in terms of the byte offsets of
  \<open>record->getSourceRange()\<close>, whose end is the closing brace: from a location inside
  the class and before that brace the next token still lies in the range, a \<open>;\<close> never
  being its last token; and every explicit public method ends before the closing brace.
\<close>

definition within_class :: "SourceManager \<Rightarrow> CXXRecordDecl \<Rightarrow> SourceLocation \<Rightarrow> bool" where
  "within_class source_manager record_decl location =
     (range_begin_offset record_decl \<le> getFileOffset source_manager location \<and>
      getFileOffset source_manager location \<le> range_end_offset record_decl)"

definition before_class_end :: "SourceManager \<Rightarrow> CXXRecordDecl \<Rightarrow> SourceLocation \<Rightarrow> bool" where
  "before_class_end source_manager record_decl location =
     (range_begin_offset record_decl \<le> getFileOffset source_manager location \<and>
      getFileOffset source_manager location < range_end_offset record_decl)"

definition lexer_stays_in_class :: "SourceManager \<Rightarrow> CXXRecordDecl \<Rightarrow> bool" where
  "lexer_stays_in_class source_manager record_decl =
     (\<forall>location tok.
        before_class_end source_manager record_decl location \<and>
        findNextToken source_manager location = Some tok \<longrightarrow>
        within_class source_manager record_decl (getLocation tok) \<and>
        (getKind tok = semi \<longrightarrow> before_class_end source_manager record_decl (getLocation tok)))"

definition public_methods_end_in_class :: "SourceManager \<Rightarrow> CXXRecordDecl \<Rightarrow> bool" where
  "public_methods_end_in_class source_manager record_decl =
     (\<forall>method \<in> set (methods record_decl).
        is_public_explicit_method method \<longrightarrow>
        before_class_end source_manager record_decl (method_getEndLoc method))"

section \<open>Concrete sources\<close>

subsection \<open>A front end read off a token table\<close>

text \<open>
  For concrete sources the front end is given by the table of the file's tokens (kind,
  offset of the first character, length), ending with the end-of-file token. As clang's
  \<open>Lexer::findNextToken\<close> does, the lexer moves to the end of the token that starts at the
  location and returns the first token from there on; for the invalid location it
  returns none. \<open>getFileOffset\<close> of a file location is its offset.
\<close>

record RawToken =
  raw_kind :: TokenKind
  raw_begin :: nat
  raw_length :: nat

definition raw :: "TokenKind \<Rightarrow> nat \<Rightarrow> nat \<Rightarrow> RawToken" where
  "raw k b l = \<lparr>raw_kind = k, raw_begin = b, raw_length = l\<rparr>"

definition getLocForEndOfToken :: "RawToken list \<Rightarrow> nat \<Rightarrow> nat" where
  "getLocForEndOfToken toks p =
     (case List.find (\<lambda>t. raw_begin t = p) toks of
        None \<Rightarrow> p
      | Some t \<Rightarrow> p + raw_length t)"

definition lex_after :: "RawToken list \<Rightarrow> nat \<Rightarrow> Token option" where
  "lex_after toks p =
     map_option (\<lambda>t. \<lparr>getKind = raw_kind t, getLocation = FileLoc (raw_begin t)\<rparr>)
       (List.find (\<lambda>t. getLocForEndOfToken toks p \<le> raw_begin t) toks)"

definition front_end :: "RawToken list \<Rightarrow> SourceManager" where
  "front_end toks =
     \<lparr>findNextToken = (\<lambda>location. case location of
                                     InvalidLoc \<Rightarrow> None
                                   | FileLoc p \<Rightarrow> lex_after toks p),
      getFileOffset = (\<lambda>location. case location of InvalidLoc \<Rightarrow> 0 | FileLoc p \<Rightarrow> p)\<rparr>"

text \<open>A token stream that never ends and holds nothing but \<open>;\<close>, one per byte.\<close>

definition endless_semis :: SourceManager where
  "endless_semis =
     \<lparr>findNextToken = (\<lambda>location. case location of
                                     InvalidLoc \<Rightarrow> None
                                   | FileLoc p \<Rightarrow>
                                       Some \<lparr>getKind = semi, getLocation = FileLoc (Suc p)\<rparr>),
      getFileOffset = (\<lambda>location. case location of InvalidLoc \<Rightarrow> 0 | FileLoc p \<Rightarrow> p)\<rparr>"

subsection \<open>Declarations\<close>

text \<open>
  An explicit method \<open>void parent::name()\<close> with the given access and purity, whose last
  token is at \<open>end_offset\<close>.
\<close>

definition method_decl ::
  "string \<Rightarrow> string \<Rightarrow> AccessSpecifier \<Rightarrow> bool \<Rightarrow> nat \<Rightarrow> FunctionDecl" where
  "method_decl parent name access pure end_offset =
     \<lparr>getAttrs = [], return_type_as_written = ''void'', getReturnType = PlainType ''void'',
      getQualifiedNameAsString = parent @ ''::'' @ name, parameters = [],
      exception_spec_text = None,
      as_method = Some \<lparr>isConst = False, getRefQualifier = RQ_None, isPure = pure,
                         getAccess = access, isImplicit = False,
                         getEndLoc = FileLoc end_offset, parent_qualified_name = parent\<rparr>\<rparr>"

text \<open>\<open>struct I { virtual void run() const noexcept = 0; };\<close>\<close>

definition I_run :: FunctionDecl where
  "I_run = (method_decl ''I'' ''run'' AS_public True 47)
             \<lparr>exception_spec_text := Some ''noexcept'',
              as_method := Some \<lparr>isConst = True, getRefQualifier = RQ_None, isPure = True,
                                  getAccess = AS_public, isImplicit = False,
                                  getEndLoc = FileLoc 47, parent_qualified_name = ''I''\<rparr>\<rparr>"

text \<open>
  \<open>namespace { struct I { virtual void run() = 0; }; }\<close>: clang names the record
  \<open>(anonymous namespace)::I\<close> and the method \<open>(anonymous namespace)::I::run\<close>.
\<close>

definition Anon_I_run :: FunctionDecl where
  "Anon_I_run = method_decl ''(anonymous namespace)::I'' ''run'' AS_public True 0"

definition Anon_I_node :: CXXRecordDecl where
  "Anon_I_node = \<lparr>methods = [Anon_I_run], isStruct = True, range_begin_offset = 0,
                  range_end_offset = 0\<rparr>"

text \<open>
  A class without methods of its own, deriving from what the walk over the bases gives.
  The derivation of override declarations reads neither locations nor ranges; in the
  nodes that only it uses they are left at 0.
\<close>

definition D_node :: CXXRecordDecl where
  "D_node = \<lparr>methods = [], isStruct = False, range_begin_offset = 0, range_end_offset = 0\<rparr>"

text \<open>
  Two interfaces \<open>T1\<close> and \<open>T2\<close>, each with \<open>virtual void tick() = 0;\<close>.
\<close>

definition T1_node :: CXXRecordDecl where
  "T1_node = \<lparr>methods = [method_decl ''T1'' ''tick'' AS_public True 0], isStruct = True,
              range_begin_offset = 0, range_end_offset = 0\<rparr>"

definition T2_node :: CXXRecordDecl where
  "T2_node = \<lparr>methods = [method_decl ''T2'' ''tick'' AS_public True 0], isStruct = True,
              range_begin_offset = 0, range_end_offset = 0\<rparr>"

text \<open>
  \<open>struct A { [[deprecated("AA::::")]] virtual void f() = 0; };\<close>: the text of the
  attribute is kept as written, string literal included.
\<close>

definition A_f :: FunctionDecl where
  "A_f = (method_decl ''A'' ''f'' AS_public True 0)
           \<lparr>getAttrs := [\<lparr>isStandardAttributeSyntax = True,
                          attr_range_text = ''deprecated('' @ [CHR 0x22] @ ''AA::::''
                                            @ [CHR 0x22] @ '')''\<rparr>]\<rparr>"

definition A_node :: CXXRecordDecl where
  "A_node = \<lparr>methods = [A_f], isStruct = True, range_begin_offset = 0, range_end_offset = 0\<rparr>"

text \<open>The free function \<open>[[nodiscard]] int f(int x) noexcept;\<close> of namespace \<open>N\<close>.\<close>

definition N_f :: FunctionDecl where
  "N_f = \<lparr>getAttrs = [\<lparr>isStandardAttributeSyntax = True, attr_range_text = ''nodiscard''\<rparr>],
          return_type_as_written = ''int'', getReturnType = PlainType ''int'',
          getQualifiedNameAsString = ''N::f'',
          parameters = [\<lparr>parm_type_text = ''int'', parm_name = ''x''\<rparr>],
          exception_spec_text = Some ''noexcept'',
          as_method = None\<rparr>"

subsection \<open>Files\<close>

text \<open>
  \<^verbatim>\<open>struct S {\<close>, \<^verbatim>\<open>  void f();\<close>, \<^verbatim>\<open>};\<close>: three lines, 26 bytes; \<open>f\<close> ends at the \<open>)\<close> at
  offset 20, the class at the \<open>}\<close> at offset 23.
\<close>

definition S_content :: string where
  "S_content = ''struct S {'' @ [CHR 0x0A] @ ''  void f();'' @ [CHR 0x0A] @ ''};'' @ [CHR 0x0A]"

definition S_tokens :: "RawToken list" where
  "S_tokens =
     [raw other_token 0 6, raw other_token 7 1, raw l_brace 9 1, raw other_token 13 4,
      raw other_token 18 1, raw other_token 19 1, raw other_token 20 1, raw semi 21 1,
      raw r_brace 23 1, raw semi 24 1, raw eof 26 0]"

definition S_node :: CXXRecordDecl where
  "S_node = \<lparr>methods = [method_decl ''S'' ''f'' AS_public False 20], isStruct = True,
             range_begin_offset = 0, range_end_offset = 23\<rparr>"




text \<open>
  \<^verbatim>\<open>class C {\<close>, \<^verbatim>\<open>  int x;\<close>, \<^verbatim>\<open>  void g();\<close>, \<^verbatim>\<open>};\<close>: a class with private members
  only and no \<open>public:\<close> label; 34 bytes, the opening brace at offset 8 of line 1.
\<close>

definition C_content :: string where
  "C_content = ''class C {'' @ [CHR 0x0A] @ ''  int x;'' @ [CHR 0x0A] @ ''  void g();''
               @ [CHR 0x0A] @ ''};'' @ [CHR 0x0A]"

definition C_tokens :: "RawToken list" where
  "C_tokens =
     [raw other_token 0 5, raw other_token 6 1, raw l_brace 8 1, raw other_token 12 3,
      raw other_token 16 1, raw semi 17 1, raw other_token 21 4, raw other_token 26 1,
      raw other_token 27 1, raw other_token 28 1, raw semi 29 1, raw r_brace 31 1,
      raw semi 32 1, raw eof 34 0]"

definition C_node :: CXXRecordDecl where
  "C_node = \<lparr>methods = [method_decl ''C'' ''g'' AS_private False 28], isStruct = False,
             range_begin_offset = 0, range_end_offset = 31\<rparr>"

text \<open>\<^verbatim>\<open>struct E {};\<close>: a class with no method and no token in its body; 13 bytes.\<close>

definition E_content :: string where
  "E_content = ''struct E {};'' @ [CHR 0x0A]"

definition E_tokens :: "RawToken list" where
  "E_tokens =
     [raw other_token 0 6, raw other_token 7 1, raw l_brace 9 1, raw r_brace 10 1,
      raw semi 11 1, raw eof 13 0]"

definition E_node :: CXXRecordDecl where
  "E_node = \<lparr>methods = [], isStruct = True, range_begin_offset = 0, range_end_offset = 10\<rparr>"

section \<open>Properties of the declaration text\<close>

declare skip_semis.simps [simp del]
declare std_find_newline.simps [simp del]
declare erase_all.simps [simp del]

subsection \<open>The join\<close>

lemma foldl_append_delim:
  "foldl (\<lambda>result elem. result @ delim @ elem) init rest =
     init @ concat (map (\<lambda>elem. delim @ elem) rest)"
  by (induction rest arbitrary: init) simp_all

lemma spec_join_Cons:
  "spec_join delim (x # xs) = x @ concat (map (\<lambda>elem. delim @ elem) xs)"
  by (induction xs arbitrary: x) simp_all

lemma join_eq_spec_join: "join string_vec delim = spec_join delim string_vec"
  by (cases string_vec) (simp_all add: join_def foldl_append_delim spec_join_Cons)

lemma standard_attributes_as_strings_eq:
  "standard_attributes_as_strings attrs =
     map (\<lambda>a. ''[['' @ attr_range_text a @ '']]'') (filter isStandardAttributeSyntax attrs)"
  by (induction attrs) simp_all

lemma get_ref_qualifier_cases:
  "get_ref_qualifier m =
     (case getRefQualifier m of RQ_LValue \<Rightarrow> ''&'' | RQ_RValue \<Rightarrow> ''&&'' | RQ_None \<Rightarrow> [])"
  by (cases "getRefQualifier m") (simp_all add: get_ref_qualifier_def)

text \<open>
  C7. The synthesized text is the join with single spaces of the non-empty fragments:
  the standard attributes (each as \<open>[[text]]\<close>, space-joined; left out when the options
  say so), the return type, the qualified name directly followed by the parenthesized
  parameters joined with comma and space, and for a method \<open>const\<close> iff it is
  const-qualified, \<open>&\<close> or \<open>&&\<close> for an lvalue or rvalue ref-qualifier, and the
  exception specification as written.
\<close>

theorem declaration_text_is_space_join:
  "fully_expand_function_declaration decl options =
     spec_join '' ''
       (filter (\<lambda>fragment. fragment \<noteq> [])
          ([if ignore_attribute_specifiers options then []
            else spec_join '' ''
                   (map (\<lambda>attr. ''[['' @ attr_range_text attr @ '']]'')
                      (filter isStandardAttributeSyntax (getAttrs decl))),
            get_return_type decl,
            getQualifiedNameAsString decl
              @ ''('' @ spec_join '', '' (map param_to_string (parameters decl)) @ '')'']
           @ (case as_method decl of
                None \<Rightarrow> []
              | Some method \<Rightarrow>
                  [if isConst method then ''const'' else [],
                   case getRefQualifier method of
                     RQ_LValue \<Rightarrow> ''&'' | RQ_RValue \<Rightarrow> ''&&'' | RQ_None \<Rightarrow> [],
                   case exception_spec_text decl of
                     None \<Rightarrow> [] | Some written \<Rightarrow> written])))"
  unfolding fully_expand_function_declaration_def join_eq_spec_join result_parted_def
    get_standard_attributes_def get_parameters_def standard_attributes_as_strings_eq
    get_ref_qualifier_cases get_noexcept_qualifier_def
  by (cases "as_method decl") simp_all

text \<open>
  The method \<open>virtual void run() const noexcept = 0;\<close> of \<open>I\<close> is synthesized as
  \<open>void I::run() const noexcept\<close>.
\<close>

theorem declaration_text_is_space_join_witness:
  "fully_expand_function_declaration I_run \<lparr>ignore_attribute_specifiers = False\<rparr> =
     ''void I::run() const noexcept''"
  using declaration_text_is_space_join
          [where decl = I_run and options = "\<lparr>ignore_attribute_specifiers = False\<rparr>"]
  by (simp add: I_run_def method_decl_def get_return_type_def)

subsection \<open>Attribute brackets\<close>

lemma prefix_before_separator:
  assumes "c \<notin> set p" and "prefix p (u @ c # v)"
  shows "prefix p u"
proof -
  from assms(2) consider "prefix p u" | us where "p = u @ us" "prefix us (c # v)"
    by (auto simp: prefix_append)
  then show ?thesis
  proof cases
    case 1
    then show ?thesis .
  next
    case 2
    with assms(1) have "us = []"
      by (cases us) auto
    with 2 show ?thesis by simp
  qed
qed

lemma sublist_across_separator:
  assumes "c \<notin> set p" and "sublist p (a @ c # b)"
  shows "sublist p a \<or> sublist p b"
  using assms(2)
proof (induction a)
  case Nil
  then have "prefix p (c # b) \<or> sublist p b"
    by (simp add: sublist_Cons_right)
  moreover have "p = []" if "prefix p (c # b)"
    using prefix_before_separator [OF assms(1), of "[]" b] that by simp
  ultimately show ?case by auto
next
  case (Cons x a)
  then have "prefix p ((x # a) @ c # b) \<or> sublist p (a @ c # b)"
    by (simp add: sublist_Cons_right)
  then show ?case
  proof
    assume "prefix p ((x # a) @ c # b)"
    then have "prefix p (x # a)"
      by (rule prefix_before_separator [OF assms(1)])
    then show ?thesis
      by (auto simp: sublist_Cons_right)
  next
    assume "sublist p (a @ c # b)"
    with Cons.IH show ?thesis
      by (auto simp: sublist_Cons_right)
  qed
qed

lemma sublist_spec_join_space:
  assumes "CHR '' '' \<notin> set p" and "p \<noteq> []"
  shows "sublist p (spec_join '' '' xs) \<Longrightarrow> \<exists>x \<in> set xs. sublist p x"
proof (induction xs rule: induct_list012)
  case 1
  with assms(2) show ?case by simp
next
  case (2 x)
  then show ?case by simp
next
  case (3 x y zs)
  from 3(3) have "sublist p (x @ CHR '' '' # spec_join '' '' (y # zs))"
    by simp
  then have "sublist p x \<or> sublist p (spec_join '' '' (y # zs))"
    by (rule sublist_across_separator [OF assms(1)])
  with 3(2) show ?case by auto
qed

lemma method_fragments_without_brackets:
  assumes "\<not> sublist ''[['' (get_noexcept_qualifier decl)"
    and "fragment \<in> set (case as_method decl of
                            None \<Rightarrow> []
                          | Some method \<Rightarrow>
                              [if isConst method then ''const'' else [],
                               get_ref_qualifier method,
                               get_noexcept_qualifier decl])"
  shows "\<not> sublist ''[['' fragment"
proof (cases "as_method decl")
  case None
  with assms(2) show ?thesis by simp
next
  case (Some m)
  have "\<not> sublist ''[['' ''const''" "\<not> sublist ''[['' ''&''" "\<not> sublist ''[['' ''&&''"
    by (simp_all add: sublist_Cons_right)
  with assms Some show ?thesis
    by (auto simp: get_ref_qualifier_def split: if_splits)
qed

text \<open>
  C8. With \<open>ignore_attribute_specifiers\<close> set, the synthesized text does not depend on
  the attributes of the declaration, and it holds no \<open>[[\<close> unless the return type, the
  name with the parameters or the exception specification hold one.
\<close>

theorem ignored_attributes_leave_no_brackets:
  assumes "ignore_attribute_specifiers options"
  shows "fully_expand_function_declaration (decl\<lparr>getAttrs := attrs\<rparr>) options =
           fully_expand_function_declaration (decl\<lparr>getAttrs := []\<rparr>) options
         \<and> (\<not> sublist ''[['' (get_return_type decl) \<and>
            \<not> sublist ''[['' (getQualifiedNameAsString decl @ get_parameters decl) \<and>
            \<not> sublist ''[['' (get_noexcept_qualifier decl)
            \<longrightarrow> \<not> sublist ''[['' (fully_expand_function_declaration decl options))"
proof (intro conjI impI)
  from assms
  show "fully_expand_function_declaration (decl\<lparr>getAttrs := attrs\<rparr>) options =
          fully_expand_function_declaration (decl\<lparr>getAttrs := []\<rparr>) options"
    by (cases "as_method decl")
       (simp_all add: fully_expand_function_declaration_def result_parted_def
          get_return_type_def get_parameters_def get_noexcept_qualifier_def)
next
  assume clean: "\<not> sublist ''[['' (get_return_type decl) \<and>
    \<not> sublist ''[['' (getQualifiedNameAsString decl @ get_parameters decl) \<and>
    \<not> sublist ''[['' (get_noexcept_qualifier decl)"
  show "\<not> sublist ''[['' (fully_expand_function_declaration decl options)"
  proof
    assume "sublist ''[['' (fully_expand_function_declaration decl options)"
    then have "\<exists>fragment \<in> set (filter (\<lambda>s. s \<noteq> []) (result_parted decl options)).
                 sublist ''[['' fragment"
      unfolding fully_expand_function_declaration_def join_eq_spec_join
      by (intro sublist_spec_join_space) simp_all
    then obtain fragment where "fragment \<in> set (result_parted decl options)"
      and found: "sublist ''[['' fragment"
      by auto
    with assms consider "fragment = get_return_type decl"
      | "fragment = getQualifiedNameAsString decl @ get_parameters decl"
      | "fragment \<in> set (case as_method decl of
                            None \<Rightarrow> []
                          | Some method \<Rightarrow>
                              [if isConst method then ''const'' else [],
                               get_ref_qualifier method,
                               get_noexcept_qualifier decl])"
      by (auto simp: result_parted_def)
    then show False
    proof cases
      case 1
      with clean found show False by simp
    next
      case 2
      with clean found show False by simp
    next
      case 3
      with clean found method_fragments_without_brackets [of decl fragment]
      show False by simp
    qed
  qed
qed

text \<open>
  \<open>[[nodiscard]] int f(int x) noexcept;\<close> of namespace \<open>N\<close>, synthesized without
  attributes: \<open>int N::f(int x)\<close>, whatever attributes the declaration carries.
\<close>

theorem ignored_attributes_leave_no_brackets_witness:
  "ignore_attribute_specifiers \<lparr>ignore_attribute_specifiers = True\<rparr>
   \<and> getAttrs N_f \<noteq> []
   \<and> fully_expand_function_declaration N_f \<lparr>ignore_attribute_specifiers = True\<rparr>
       = ''int N::f(int x)''
   \<and> \<not> sublist ''[[''
         (fully_expand_function_declaration N_f \<lparr>ignore_attribute_specifiers = True\<rparr>)"
proof -
  have clean: "\<not> sublist ''[['' (get_return_type N_f) \<and>
    \<not> sublist ''[['' (getQualifiedNameAsString N_f @ get_parameters N_f) \<and>
    \<not> sublist ''[['' (get_noexcept_qualifier N_f)"
    by code_simp
  have text_eq: "fully_expand_function_declaration N_f \<lparr>ignore_attribute_specifiers = True\<rparr>
      = ''int N::f(int x)''"
    by code_simp
  have attributed: "getAttrs N_f \<noteq> []"
    by (simp add: N_f_def)
  have ignoring: "ignore_attribute_specifiers \<lparr>ignore_attribute_specifiers = True\<rparr>"
    by simp
  from ignored_attributes_leave_no_brackets
         [OF ignoring, where decl = N_f and attrs = "getAttrs N_f"] clean
  have "\<not> sublist ''[[''
          (fully_expand_function_declaration N_f \<lparr>ignore_attribute_specifiers = True\<rparr>)"
    by blast
  with ignoring attributed text_eq show ?thesis
    by (intro conjI)
qed

subsection \<open>Free functions\<close>

text \<open>
  C10. For a declaration that is not a method, the synthesized text is the space join
  of the non-empty ones among the attribute, return-type and name-with-parameters
  fragments; in particular an exception specification written on it changes nothing.
\<close>

theorem free_function_has_no_method_fragments:
  assumes "as_method decl = None"
  shows "fully_expand_function_declaration decl options =
           spec_join '' ''
             (filter (\<lambda>fragment. fragment \<noteq> [])
                ((if ignore_attribute_specifiers options then []
                  else [get_standard_attributes decl])
                 @ [get_return_type decl,
                    getQualifiedNameAsString decl @ get_parameters decl]))
         \<and> fully_expand_function_declaration
             (decl\<lparr>exception_spec_text := written\<rparr>) options =
           fully_expand_function_declaration decl options"
  using assms
  by (simp add: fully_expand_function_declaration_def join_eq_spec_join result_parted_def
        get_standard_attributes_def get_return_type_def get_parameters_def)

text \<open>
  The free decl \<open>[[nodiscard]] int N::f(int x) noexcept\<close> is synthesized as
  \<open>[[nodiscard]] int N::f(int x)\<close>: its \<open>noexcept\<close> is not part of the text.
\<close>

theorem free_function_has_no_method_fragments_witness:
  "as_method N_f = None
   \<and> exception_spec_text N_f = Some ''noexcept''
   \<and> fully_expand_function_declaration N_f \<lparr>ignore_attribute_specifiers = False\<rparr>
       = ''[[nodiscard]] int N::f(int x)''"
proof -
  have free: "as_method N_f = None"
    by (simp add: N_f_def)
  have "spec_join '' ''
          (filter (\<lambda>fragment. fragment \<noteq> [])
             ((if ignore_attribute_specifiers \<lparr>ignore_attribute_specifiers = False\<rparr> then []
               else [get_standard_attributes N_f])
              @ [get_return_type N_f, getQualifiedNameAsString N_f @ get_parameters N_f]))
        = ''[[nodiscard]] int N::f(int x)''"
    by code_simp
  with free
    free_function_has_no_method_fragments
      [OF free, where options = "\<lparr>ignore_attribute_specifiers = False\<rparr>"
         and written = "exception_spec_text N_f"]
  show ?thesis by (simp add: N_f_def)
qed

section \<open>Properties of the override declarations\<close>

subsection \<open>The order of collection\<close>

lemma collect_methods_eq:
  "collect_methods rx ms acc = acc @ map (override_declaration rx) (filter method_isPure ms)"
  by (induction ms arbitrary: acc)
     (simp_all add: append_override_declaration_def override_declaration_def Let_def)

lemma collect_override_declarations_eq:
  "collect_override_declarations rx r acc = acc @ pure_virtual_declarations rx r"
  by (simp add: collect_override_declarations_def collect_methods_eq
        pure_virtual_declarations_def)

lemma forallBases_collect:
  "forallBases bases (\<lambda>base decls. (True, collect_override_declarations rx base decls)) acc =
     acc @ concat (map (pure_virtual_declarations rx) bases)"
  by (induction bases arbitrary: acc) (simp_all add: collect_override_declarations_eq)

lemma override_declarations_concat:
  "pure_virtual_functions_to_override_declarations rx bases node =
     concat (map (pure_virtual_declarations rx) bases) @ pure_virtual_declarations rx node"
  unfolding pure_virtual_functions_to_override_declarations_def Let_def forallBases_collect
  by (simp add: collect_override_declarations_eq)

text \<open>
  C6. The result lists the entries of the pure virtual methods of every base the walk
  visits, base after base in the order of the walk, then those of the class itself,
  each record's methods in declaration order. Nothing is removed: there are as many
  entries as pure virtual methods in the visited records and the class together.
\<close>

theorem override_declarations_in_visit_order:
  "pure_virtual_functions_to_override_declarations regex_replace bases node =
     concat (map (\<lambda>record_decl. map (override_declaration regex_replace)
                                   (filter method_isPure (methods record_decl)))
               (bases @ [node]))
   \<and> length (pure_virtual_functions_to_override_declarations regex_replace bases node) =
       sum_list (map (\<lambda>record_decl. length (filter method_isPure (methods record_decl)))
                   (bases @ [node]))"
proof -
  have entries: "pure_virtual_functions_to_override_declarations regex_replace bases node =
     concat (map (\<lambda>record_decl. map (override_declaration regex_replace)
                                   (filter method_isPure (methods record_decl)))
               (bases @ [node]))"
    by (simp add: override_declarations_concat pure_virtual_declarations_def [abs_def])
  have "length (concat (map (\<lambda>record_decl. map (override_declaration regex_replace)
                                   (filter method_isPure (methods record_decl))) rs)) =
     sum_list (map (\<lambda>record_decl. length (filter method_isPure (methods record_decl))) rs)"
    for rs :: "CXXRecordDecl list"
    by (induction rs) simp_all
  with entries show ?thesis by simp
qed

text \<open>
  Two bases that each declare \<open>virtual void tick() = 0;\<close> give two equal entries.
\<close>

theorem override_declarations_in_visit_order_witness:
  "pure_virtual_functions_to_override_declarations literal_replace [T1_node, T2_node] D_node =
     [''void tick() override;'', ''void tick() override;'']"
proof -
  have "concat (map (\<lambda>record_decl. map (override_declaration literal_replace)
                                   (filter method_isPure (methods record_decl)))
               ([T1_node, T2_node] @ [D_node])) =
     [''void tick() override;'', ''void tick() override;'']"
    by code_simp
  with override_declarations_in_visit_order
         [where regex_replace = literal_replace and bases = "[T1_node, T2_node]"
            and node = D_node]
  show ?thesis by simp
qed

subsection \<open>The shape of an entry\<close>

lemma erase_all_Nil: "erase_all p [] = []"
  by (subst erase_all.simps) simp

lemma erase_all_match:
  "p \<noteq> [] \<Longrightarrow> prefix p (c # cs) \<Longrightarrow>
   erase_all p (c # cs) = erase_all p (drop (length p) (c # cs))"
  by (subst erase_all.simps) simp

lemma erase_all_skip:
  "p \<noteq> [] \<Longrightarrow> \<not> prefix p (c # cs) \<Longrightarrow> erase_all p (c # cs) = c # erase_all p cs"
  by (subst erase_all.simps) simp

text \<open>
  Erasing cuts the subject at occurrences of the pattern and glues the pieces; no piece
  holds the pattern.
\<close>

lemma erase_all_pieces:
  "p \<noteq> [] \<Longrightarrow>
   \<exists>pieces. pieces \<noteq> [] \<and> t = spec_join p pieces \<and> erase_all p t = concat pieces \<and>
            (\<forall>s \<in> set pieces. \<not> sublist p s)"
proof (induction p t rule: erase_all.induct)
  case (1 p t)
  show ?case
  proof (cases t)
    case Nil
    with "1.prems" have "[[]] \<noteq> [] \<and> t = spec_join p [[]] \<and> erase_all p t = concat [[]] \<and>
            (\<forall>s \<in> set [[]]. \<not> sublist p s)"
      by (simp add: erase_all_Nil)
    then show ?thesis by blast
  next
    case (Cons c cs)
    show ?thesis
    proof (cases "prefix p t")
      case True
      from "1.IH"(1) [OF "1.prems" Cons True "1.prems"] obtain pieces
        where pieces: "pieces \<noteq> []" "drop (length p) t = spec_join p pieces"
          "erase_all p (drop (length p) t) = concat pieces" "\<forall>s \<in> set pieces. \<not> sublist p s"
        by blast
      from True have "t = p @ drop (length p) t"
        by (metis append_eq_conv_conj prefixE)
      with pieces(1,2) have "t = spec_join p ([] # pieces)"
        by (cases pieces) simp_all
      moreover from True Cons "1.prems" pieces(3) have "erase_all p t = concat ([] # pieces)"
        by (simp add: erase_all_match)
      moreover from pieces(4) "1.prems" have "\<forall>s \<in> set ([] # pieces). \<not> sublist p s"
        by simp
      ultimately show ?thesis by blast
    next
      case False
      from "1.IH"(2) [OF "1.prems" Cons False "1.prems"] obtain pieces
        where pieces: "pieces \<noteq> []" "cs = spec_join p pieces"
          "erase_all p cs = concat pieces" "\<forall>s \<in> set pieces. \<not> sublist p s"
        by blast
      then obtain s ss where s: "pieces = s # ss"
        by (cases pieces) auto
      have "t = spec_join p ((c # s) # ss)"
        using Cons pieces(2) s by (simp add: spec_join_Cons)
      moreover have "erase_all p t = concat ((c # s) # ss)"
        using Cons False "1.prems" pieces(3) s by (simp add: erase_all_skip)
      moreover have "\<not> sublist p (c # s)"
      proof
        assume "sublist p (c # s)"
        with pieces(4) s have "prefix p (c # s)"
          by (simp add: sublist_Cons_right)
        moreover have "prefix (c # s) t"
          using Cons pieces(2) s by (simp add: spec_join_Cons)
        ultimately have "prefix p t"
          by (rule prefix_order.trans)
        with False show False ..
      qed
      with pieces(4) s have "\<forall>x \<in> set ((c # s) # ss). \<not> sublist p x"
        by simp
      ultimately show ?thesis by blast
    qed
  qed
qed

text \<open>
  Whatever the replacement does, every entry ends with the suffix.
\<close>

lemma override_entries_end_with_suffix:
  assumes "entry \<in> set (pure_virtual_functions_to_override_declarations regex_replace bases node)"
  shows "suffix '' override;'' entry"
  using assms
  by (auto simp: override_declarations_concat pure_virtual_declarations_def
        override_declaration_def suffix_def)

text \<open>
  One pass of a literal replacement can leave the pattern where two kept pieces meet: for
  \<open>struct A { [[deprecated("AA::::")]] virtual void f() = 0; };\<close> the synthesized text is
  \<open>[[deprecated("AA::::")]] void A::f()\<close>; the pass removes the \<open>A::\<close> inside the string
  literal and the one before \<open>f\<close>, and what is left of the literal reads \<open>A::\<close> again.
\<close>

lemma single_pass_joins_prefix_again:
  "pure_virtual_functions_to_override_declarations literal_replace [A_node] D_node =
     [''[[deprecated('' @ [CHR 0x22] @ ''A::'' @ [CHR 0x22] @ '')]] void f() override;'']
   \<and> interface_nesting_prefix A_f = ''A::''
   \<and> sublist ''A::''
       (''[[deprecated('' @ [CHR 0x22] @ ''A::'' @ [CHR 0x22] @ '')]] void f() override;'')"
  by code_simp

text \<open>
  C5. The claim asks that no entry keeps the qualified name of the declaring interface
  followed by \<open>::\<close>. The code hands that prefix to \<open>std::regex\<close> as it is. For the
  interface \<open>I\<close> of an anonymous namespace the prefix is \<open>(anonymous namespace)::I::\<close>:
  whatever the replacement is, this string is its pattern and
  \<open>void (anonymous namespace)::I::run()\<close> its subject. As a regular expression the
  pattern matches \<open>anonymous namespace::I::\<close>, which the subject does not hold, so
  nothing is replaced and the entry keeps the whole prefix.
\<close>

theorem anonymous_namespace_prefix_stays:
  "interface_nesting_prefix Anon_I_run = ''(anonymous namespace)::I::''
   \<and> fully_expand_function_declaration Anon_I_run \<lparr>ignore_attribute_specifiers = False\<rparr>
       = ''void (anonymous namespace)::I::run()''
   \<and> (\<forall>regex_replace.
         pure_virtual_functions_to_override_declarations regex_replace [Anon_I_node] D_node
           = [regex_replace ''void (anonymous namespace)::I::run()''
                ''(anonymous namespace)::I::'' @ '' override;''])
   \<and> \<not> sublist ''anonymous namespace::I::'' ''void (anonymous namespace)::I::run()''
   \<and> pure_virtual_functions_to_override_declarations regex_replace_groups [Anon_I_node] D_node
       = [''void (anonymous namespace)::I::run() override;'']
   \<and> sublist ''(anonymous namespace)::I::'' ''void (anonymous namespace)::I::run() override;''"
proof -
  have pfx: "interface_nesting_prefix Anon_I_run = ''(anonymous namespace)::I::''"
    by code_simp
  have synthesized:
    "fully_expand_function_declaration Anon_I_run \<lparr>ignore_attribute_specifiers = False\<rparr>
       = ''void (anonymous namespace)::I::run()''"
    by code_simp
  have pure: "filter method_isPure (methods Anon_I_node) = [Anon_I_run]"
    by code_simp
  have "methods D_node = []"
    by (simp add: D_node_def)
  with pure pfx synthesized
  have handed: "pure_virtual_functions_to_override_declarations regex_replace [Anon_I_node] D_node
           = [regex_replace ''void (anonymous namespace)::I::run()''
                ''(anonymous namespace)::I::'' @ '' override;'']"
    for regex_replace
    by (simp add: override_declarations_concat pure_virtual_declarations_def
          override_declaration_def)
  have no_match:
    "\<not> sublist ''anonymous namespace::I::'' ''void (anonymous namespace)::I::run()''"
    by code_simp
  have kept:
    "pure_virtual_functions_to_override_declarations regex_replace_groups [Anon_I_node] D_node
       = [''void (anonymous namespace)::I::run() override;'']"
    by code_simp
  have residual:
    "sublist ''(anonymous namespace)::I::'' ''void (anonymous namespace)::I::run() override;''"
    by code_simp
  from pfx synthesized handed no_match kept residual show ?thesis
    by blast
qed

section \<open>Properties of the suitable place\<close>

subsection \<open>The two loops\<close>

lemma skip_semis_done: "\<not> i < 1000 \<Longrightarrow> skip_semis sm i loc = loc"
  by (subst skip_semis.simps) simp

lemma skip_semis_None: "findNextToken sm loc = None \<Longrightarrow> skip_semis sm i loc = loc"
  by (subst skip_semis.simps) simp

lemma skip_semis_other:
  "i < 1000 \<Longrightarrow> findNextToken sm loc = Some tok \<Longrightarrow> getKind tok \<noteq> semi \<Longrightarrow>
   skip_semis sm i loc = getLocation tok"
  by (subst skip_semis.simps) simp

lemma skip_semis_semi:
  "i < 1000 \<Longrightarrow> findNextToken sm loc = Some tok \<Longrightarrow> getKind tok = semi \<Longrightarrow>
   skip_semis sm i loc = skip_semis sm (Suc i) (getLocation tok)"
  by (subst skip_semis.simps) simp

lemma std_find_newline_stop: "\<not> b < e \<Longrightarrow> std_find_newline s b e = e"
  by (subst std_find_newline.simps) simp

lemma std_find_newline_hit:
  "b < e \<Longrightarrow> s ! b = CHR 0x0A \<Longrightarrow> std_find_newline s b e = b"
  by (subst std_find_newline.simps) simp

lemma std_find_newline_step:
  "b < e \<Longrightarrow> s ! b \<noteq> CHR 0x0A \<Longrightarrow> std_find_newline s b e = std_find_newline s (Suc b) e"
  by (subst std_find_newline.simps) simp

lemma skip_semis_advance:
  "\<exists>k. k \<le> 1000 - i \<and> advance sm k loc = Some (skip_semis sm i loc)"
proof (induction sm i loc rule: skip_semis.induct)
  case (1 sm i loc)
  show ?case
  proof (cases "i < 1000")
    case False
    then have "advance sm 0 loc = Some (skip_semis sm i loc)"
      by (simp add: skip_semis_done)
    then show ?thesis by blast
  next
    case True
    show ?thesis
    proof (cases "findNextToken sm loc")
      case None
      then have "advance sm 0 loc = Some (skip_semis sm i loc)"
        by (simp add: skip_semis_None)
      then show ?thesis by blast
    next
      case (Some tok)
      show ?thesis
      proof (cases "getKind tok = semi")
        case False
        with True Some have "advance sm (Suc 0) loc = Some (skip_semis sm i loc)"
          by (simp add: skip_semis_other)
        moreover from True have "Suc 0 \<le> 1000 - i" by simp
        ultimately show ?thesis by blast
      next
        case semi: True
        with "1.IH" [OF True Some] obtain k
          where k: "k \<le> 1000 - Suc i"
            "advance sm k (getLocation tok) = Some (skip_semis sm (Suc i) (getLocation tok))"
          by auto
        from True Some semi k(2) have "advance sm (Suc k) loc = Some (skip_semis sm i loc)"
          by (simp add: skip_semis_semi)
        moreover from True k(1) have "Suc k \<le> 1000 - i" by simp
        ultimately show ?thesis by blast
      qed
    qed
  qed
qed

lemma std_find_newline_bounds:
  "b \<le> e \<Longrightarrow> b \<le> std_find_newline s b e \<and> std_find_newline s b e \<le> e"
proof (induction s b e rule: std_find_newline.induct)
  case (1 s b e)
  show ?case
  proof (cases "b < e \<and> s ! b \<noteq> CHR 0x0A")
    case True
    with "1.IH" have "Suc b \<le> std_find_newline s (Suc b) e \<and> std_find_newline s (Suc b) e \<le> e"
      by simp
    with True show ?thesis by (simp add: std_find_newline_step)
  next
    case False
    then consider "\<not> b < e" | "b < e" "s ! b = CHR 0x0A" by auto
    then show ?thesis
      using "1.prems" by cases (simp_all add: std_find_newline_stop std_find_newline_hit)
  qed
qed



lemma endless_semis_next:
  "findNextToken endless_semis (FileLoc p) = Some \<lparr>getKind = semi, getLocation = FileLoc (Suc p)\<rparr>"
  by (simp add: endless_semis_def)

lemma skip_endless_semis:
  "i \<le> 1000 \<Longrightarrow> skip_semis endless_semis i (FileLoc p) = FileLoc (p + (1000 - i))"
proof (induction "1000 - i" arbitrary: i p)
  case 0
  then show ?case by (simp add: skip_semis_done)
next
  case (Suc n)
  then have "i < 1000" by simp
  then have "skip_semis endless_semis i (FileLoc p) =
               skip_semis endless_semis (Suc i) (FileLoc (Suc p))"
    using skip_semis_semi [OF _ endless_semis_next, of i p] by simp
  also have "\<dots> = FileLoc (Suc p + (1000 - Suc i))"
    using Suc by (intro Suc.hyps) simp_all
  finally show ?case
    using \<open>i < 1000\<close> by simp
qed

text \<open>
  C9. From any location and over any token stream, the scan over \<open>;\<close> tokens ends at
  a location that at most 1000 calls of the lexer reach. The scan and the search for the
  newline are the only loops of the finder; both are defined by recursion on a measure
  that decreases (the distance of the counter from 1000, the length of the range), so the
  finder has an outcome, an error or a place, on every input.
\<close>

theorem terminator_scan_bounded:
  "(\<exists>k. k \<le> 1000 \<and>
        advance source_manager k location = Some (skip_semis source_manager 0 location))
   \<and> (\<exists>outcome.
        find_suitable_place_in_class_for_public_method cpp_file_content node source_manager
          = outcome)"
  using skip_semis_advance [of 0 source_manager location] by simp

text \<open>
  On the stream that holds nothing but \<open>;\<close>, without end, the scan from offset 0 stops
  at offset 1000.
\<close>

theorem terminator_scan_bounded_witness:
  "skip_semis endless_semis 0 (FileLoc 0) = FileLoc 1000
   \<and> (\<exists>k. k \<le> 1000 \<and> advance endless_semis k (FileLoc 0) = Some (FileLoc 1000))"
  using terminator_scan_bounded [where source_manager = endless_semis and location = "FileLoc 0"]
    skip_endless_semis [of 0 0]
  by simp

subsection \<open>The offset after a location\<close>

lemma get_insert_offset_no_token:
  "findNextToken sm loc = None \<Longrightarrow>
   get_insert_offset_after_location content sm loc = Inl TokenEmpty"
  by (simp add: get_insert_offset_after_location_def unpack_source_location_from_token_def)

lemma get_insert_offset_invalid_token:
  "findNextToken sm loc = Some tok \<Longrightarrow> getLocation tok = InvalidLoc \<Longrightarrow>
   get_insert_offset_after_location content sm loc = Inl TokenInvalidLocation"
  by (simp add: get_insert_offset_after_location_def unpack_source_location_from_token_def)

lemma get_insert_offset_token:
  assumes "findNextToken sm loc = Some tok" and "getLocation tok \<noteq> InvalidLoc"
  shows "get_insert_offset_after_location content sm loc =
     (let b = getFileOffset sm (getLocation tok);
          e = getFileOffset sm (anchor_after sm tok);
          n = std_find_newline content b e
      in if e < b \<or> length content < e then Inl IteratorOutOfRange
         else Inr (if n \<noteq> e then n + 1 else e))"
  using assms
  by (simp add: get_insert_offset_after_location_def unpack_source_location_from_token_def
        anchor_after_def Let_def)

lemma get_insert_offset_returns:
  assumes "get_insert_offset_after_location content sm loc = Inr r"
  obtains tok where "findNextToken sm loc = Some tok" and "getLocation tok \<noteq> InvalidLoc"
    and "getFileOffset sm (getLocation tok) \<le> getFileOffset sm (anchor_after sm tok)"
    and "r = (let n = std_find_newline content (getFileOffset sm (getLocation tok))
                        (getFileOffset sm (anchor_after sm tok))
              in if n \<noteq> getFileOffset sm (anchor_after sm tok) then n + 1
                 else getFileOffset sm (anchor_after sm tok))"
proof -
  from assms obtain tok
    where tok: "findNextToken sm loc = Some tok" "getLocation tok \<noteq> InvalidLoc"
    using get_insert_offset_no_token [of sm loc content]
      get_insert_offset_invalid_token [of sm loc _ content]
    by (cases "findNextToken sm loc") auto
  from assms show ?thesis
    unfolding get_insert_offset_token [OF tok]
    by (intro that [OF tok]) (auto simp: Let_def split: if_splits)
qed




subsection \<open>Containment\<close>

lemma before_class_end_within: "before_class_end sm r loc \<Longrightarrow> within_class sm r loc"
  by (simp add: before_class_end_def within_class_def)

lemma lexer_stays_in_classD:
  assumes "lexer_stays_in_class sm r" and "before_class_end sm r loc"
    and "findNextToken sm loc = Some tok"
  shows "within_class sm r (getLocation tok)"
    and "getKind tok = semi \<Longrightarrow> before_class_end sm r (getLocation tok)"
  using assms unfolding lexer_stays_in_class_def by blast+

lemma skip_semis_within_class:
  "lexer_stays_in_class sm r \<Longrightarrow> before_class_end sm r loc \<Longrightarrow>
   within_class sm r (skip_semis sm i loc)"
proof (induction sm i loc rule: skip_semis.induct)
  case (1 sm i loc)
  show ?case
  proof (cases "i < 1000")
    case False
    with "1.prems" show ?thesis
      by (simp add: skip_semis_done before_class_end_within)
  next
    case True
    show ?thesis
    proof (cases "findNextToken sm loc")
      case None
      with "1.prems" show ?thesis
        by (simp add: skip_semis_None before_class_end_within)
    next
      case (Some tok)
      note next_tok = lexer_stays_in_classD [OF "1.prems" Some]
      show ?thesis
      proof (cases "getKind tok = semi")
        case False
        with True Some next_tok(1) show ?thesis
          by (simp add: skip_semis_other)
      next
        case semi: True
        with "1.IH" [OF True Some] next_tok(2) "1.prems"(1)
        have "within_class sm r (skip_semis sm (Suc i) (getLocation tok))"
          by simp
        with True Some semi show ?thesis
          by (simp add: skip_semis_semi)
      qed
    qed
  qed
qed

lemma find_if_Cons:
  "find_if pred xs = y # ys \<Longrightarrow> pred y \<and> set (y # ys) \<subseteq> set xs"
  by (induction xs) (auto split: if_splits)

lemma last_in_chain_public:
  "is_public_explicit_method l \<Longrightarrow>
   is_public_explicit_method (last_in_chain l xs) \<and> last_in_chain l xs \<in> insert l (set xs)"
  by (induction xs arbitrary: l) auto

lemma chain_end_before_class_end:
  assumes "public_methods_end_in_class sm r"
    and "find_location_after_last_public_method_in_the_first_chain r = Some loc"
  shows "before_class_end sm r loc"
proof -
  from assms(2) obtain y ys
    where found: "find_if is_public_explicit_method (methods r) = y # ys"
      and loc: "loc = method_getEndLoc (last_in_chain y (y # ys))"
    by (auto simp: find_location_after_last_public_method_in_the_first_chain_def
             split: list.splits)
  from find_if_Cons [OF found]
  have y: "is_public_explicit_method y" "set (y # ys) \<subseteq> set (methods r)"
    by simp_all
  from last_in_chain_public [OF y(1), of "y # ys"] y(2)
  have "is_public_explicit_method (last_in_chain y (y # ys))"
    "last_in_chain y (y # ys) \<in> set (methods r)"
    by auto
  with assms(1) loc show ?thesis
    by (auto simp: public_methods_end_in_class_def)
qed

lemma get_insert_offset_between:
  assumes "get_insert_offset_after_location content sm loc = Inr r"
  shows "\<exists>tok. findNextToken sm loc = Some tok \<and>
           getFileOffset sm (getLocation tok) \<le> r \<and>
           r \<le> getFileOffset sm (anchor_after sm tok)"
proof -
  from assms obtain tok where tok: "findNextToken sm loc = Some tok"
    and range: "getFileOffset sm (getLocation tok) \<le> getFileOffset sm (anchor_after sm tok)"
    and r: "r = (let n = std_find_newline content (getFileOffset sm (getLocation tok))
                           (getFileOffset sm (anchor_after sm tok))
                 in if n \<noteq> getFileOffset sm (anchor_after sm tok) then n + 1
                    else getFileOffset sm (anchor_after sm tok))"
    by (rule get_insert_offset_returns)
  from std_find_newline_bounds [OF range, of content] r range
  have "getFileOffset sm (getLocation tok) \<le> r \<and> r \<le> getFileOffset sm (anchor_after sm tok)"
    by (auto simp: Let_def)
  with tok show ?thesis by blast
qed

text \<open>
  C3. Let the front end give no token at the invalid location, keep the lexer within
  the class from any location before its closing brace, and end every explicit public
  method before that brace. Then the offset of a place the finder returns lies between
  the begin and the end offset of the class's source range, both included.
\<close>

theorem insert_offset_within_class_range:
  assumes no_token_at_invalid: "findNextToken source_manager InvalidLoc = None"
    and lexer: "lexer_stays_in_class source_manager node"
    and methods_inside: "public_methods_end_in_class source_manager node"
    and returned:
      "find_suitable_place_in_class_for_public_method cpp_file_content node source_manager
         = Inr place"
  shows "range_begin_offset node \<le> offset place \<and> offset place \<le> range_end_offset node"
proof (cases "find_location_after_last_public_method_in_the_first_chain node")
  case None
  with no_token_at_invalid returned show ?thesis
    by (simp add: find_suitable_place_in_class_for_public_method_def finder_find_def
          get_insert_offset_no_token)
next
  case (Some loc)
  with returned obtain r
    where r: "get_insert_offset_after_location cpp_file_content source_manager loc = Inr r"
      and place: "offset place = r"
    by (auto simp: find_suitable_place_in_class_for_public_method_def finder_find_def
             split: sum.splits)
  from chain_end_before_class_end [OF methods_inside Some]
  have loc: "before_class_end source_manager node loc" .
  from get_insert_offset_between [OF r] obtain tok
    where tok: "findNextToken source_manager loc = Some tok"
      and between: "getFileOffset source_manager (getLocation tok) \<le> r"
        "r \<le> getFileOffset source_manager (anchor_after source_manager tok)"
    by blast
  note first = lexer_stays_in_classD(1) [OF lexer loc tok]
    and semi = lexer_stays_in_classD(2) [OF lexer loc tok]
  have "within_class source_manager node (anchor_after source_manager tok)"
  proof (cases "getKind tok = semi")
    case True
    with semi skip_semis_within_class [OF lexer] show ?thesis
      by (simp add: anchor_after_def)
  next
    case False
    with first show ?thesis
      by (simp add: anchor_after_def)
  qed
  with first between place show ?thesis
    by (simp add: within_class_def)
qed

lemma S_lexer_stays_in_class: "lexer_stays_in_class (front_end S_tokens) S_node"
proof -
  have table: "\<forall>p \<in> set [0..<23].
      case lex_after S_tokens p of
        None \<Rightarrow> True
      | Some tok \<Rightarrow>
          (case getLocation tok of
             InvalidLoc \<Rightarrow> False
           | FileLoc q \<Rightarrow> q \<le> 23 \<and> (getKind tok = semi \<longrightarrow> q < 23))"
    by code_simp
  have next_tok: "case getLocation tok of
             InvalidLoc \<Rightarrow> False
           | FileLoc q \<Rightarrow> q \<le> 23 \<and> (getKind tok = semi \<longrightarrow> q < 23)"
    if "p < 23" "lex_after S_tokens p = Some tok" for p tok
  proof -
    from that(1) have "p \<in> set [0..<23]"
      by (simp only: set_upt atLeastLessThan_iff) simp
    with table that(2) show ?thesis
      by (auto dest!: bspec simp del: upt_rec_numeral)
  qed
  show ?thesis
    unfolding lexer_stays_in_class_def
  proof (intro allI impI)
    fix loc tok
    assume "before_class_end (front_end S_tokens) S_node loc \<and>
            findNextToken (front_end S_tokens) loc = Some tok"
    then obtain p where p: "loc = FileLoc p" "p < 23" "lex_after S_tokens p = Some tok"
      by (cases loc) (auto simp: front_end_def before_class_end_def S_node_def)
    from next_tok [OF p(2,3)]
    show "within_class (front_end S_tokens) S_node (getLocation tok) \<and>
          (getKind tok = semi \<longrightarrow>
             before_class_end (front_end S_tokens) S_node (getLocation tok))"
      by (cases "getLocation tok")
         (auto simp: front_end_def before_class_end_def within_class_def S_node_def)
  qed
qed

text \<open>
  For \<open>S_content\<close> the place is offset 23, the closing brace of the class and the end of
  its range.
\<close>

theorem insert_offset_within_class_range_witness:
  "findNextToken (front_end S_tokens) InvalidLoc = None
   \<and> lexer_stays_in_class (front_end S_tokens) S_node
   \<and> public_methods_end_in_class (front_end S_tokens) S_node
   \<and> find_suitable_place_in_class_for_public_method S_content S_node (front_end S_tokens)
       = Inr \<lparr>offset = 23, is_public_section_needed = False\<rparr>
   \<and> range_begin_offset S_node \<le> 23 \<and> 23 \<le> range_end_offset S_node"
proof -
  have no_token: "findNextToken (front_end S_tokens) InvalidLoc = None"
    by (simp add: front_end_def)
  have methods_inside: "public_methods_end_in_class (front_end S_tokens) S_node"
    by (simp add: public_methods_end_in_class_def S_node_def before_class_end_def
          method_getEndLoc_def method_decl_def front_end_def)
  have returned:
    "find_suitable_place_in_class_for_public_method S_content S_node (front_end S_tokens)
       = Inr \<lparr>offset = 23, is_public_section_needed = False\<rparr>"
    by code_simp
  from insert_offset_within_class_range
         [OF no_token S_lexer_stays_in_class methods_inside returned]
  have "range_begin_offset S_node \<le> 23 \<and> 23 \<le> range_end_offset S_node"
    by simp
  with no_token S_lexer_stays_in_class methods_inside returned show ?thesis
    by (intro conjI) simp_all
qed

subsection \<open>Classes without an explicit public method\<close>

lemma finder_never_needs_public_section:
  "finder_find content node sm = Inr place \<Longrightarrow> \<not> is_public_section_needed place"
  by (auto simp: finder_find_def split: sum.splits)

lemma no_public_method_no_place:
  assumes "findNextToken sm InvalidLoc = None"
    and "find_location_after_last_public_method_in_the_first_chain node = None"
  shows "find_suitable_place_in_class_for_public_method content node sm = Inl TokenEmpty"
  using assms
  by (simp add: find_suitable_place_in_class_for_public_method_def finder_find_def
        get_insert_offset_no_token)

text \<open>
  C1. The class \<open>C\<close> is not a struct, has no explicit public method and no \<open>public:\<close>
  label; the claim asks for the line of its opening brace with a public label needed.
  The finder looks for no label and no brace: it hands the invalid location to the
  lexer and raises the error of the empty token. Whatever the front end does, it never
  returns a place that needs a public label.
\<close>

theorem private_only_class_gets_no_fallback:
  "\<not> isStruct C_node
   \<and> \<not> sublist ''public'' C_content
   \<and> find_location_after_last_public_method_in_the_first_chain C_node = None
   \<and> find_suitable_place_in_class_for_public_method C_content C_node (front_end C_tokens)
       = Inl TokenEmpty
   \<and> (\<forall>source_manager line.
         find_suitable_place_in_class_for_public_method C_content C_node source_manager
           \<noteq> Inr \<lparr>offset = line, is_public_section_needed = True\<rparr>)"
proof -
  have "\<not> isStruct C_node
    \<and> \<not> sublist ''public'' C_content
    \<and> find_location_after_last_public_method_in_the_first_chain C_node = None
    \<and> find_suitable_place_in_class_for_public_method C_content C_node (front_end C_tokens)
        = Inl TokenEmpty"
    by code_simp
  moreover have
    "find_suitable_place_in_class_for_public_method C_content C_node source_manager
       \<noteq> Inr \<lparr>offset = line, is_public_section_needed = True\<rparr>"
    for source_manager line
    using finder_never_needs_public_section
            [of C_content C_node source_manager
               "\<lparr>offset = line, is_public_section_needed = True\<rparr>"]
    by (auto simp: find_suitable_place_in_class_for_public_method_def)
  ultimately show ?thesis by blast
qed

text \<open>
  C2. The empty class \<open>E\<close> has no method and no token in its body; the claim asks for a
  fallback place. The finder raises the error of the empty token.
\<close>

theorem empty_class_raises_token_empty:
  "methods E_node = []
   \<and> find_suitable_place_in_class_for_public_method E_content E_node (front_end E_tokens)
       = Inl TokenEmpty"
  by code_simp

end
